theory Spec2Isabelle
  imports Complex_Main
begin

section \<open>Strings\<close>

text \<open>
  A Python \<open>str\<close> is modelled as a \<^typ>\<open>string\<close>: a list of characters with code
  points 0..255. The character classes below are the restrictions of Python's
  Unicode classes to that range.
\<close>

definition isspace :: "char \<Rightarrow> bool" where
  \<comment> \<open>\<open>str.isspace\<close>, which is also the class \<open>\s\<close> of \<open>re\<close> on a \<open>str\<close> pattern:
      TAB, LF, VT, FF, CR, FS, GS, RS, US, space, NEL, NBSP.\<close>
  "isspace c =
     (let n = (of_char c :: nat)
      in (9 \<le> n \<and> n \<le> 13) \<or> (28 \<le> n \<and> n \<le> 32) \<or> n = 133 \<or> n = 160)"

definition lower :: "char \<Rightarrow> char" where
  \<comment> \<open>\<open>str.lower\<close> on one character: A-Z, and the Latin-1 capitals but the
      multiplication sign, move up by 32.\<close>
  "lower c =
     (let n = (of_char c :: nat)
      in if (65 \<le> n \<and> n \<le> 90) \<or> (192 \<le> n \<and> n \<le> 222 \<and> n \<noteq> 215)
         then char_of (n + 32) else c)"

definition startswith :: "string \<Rightarrow> string \<Rightarrow> bool" where
  \<comment> \<open>\<open>s.startswith(p)\<close>\<close>
  "startswith s p = (take (length p) s = p)"

definition strip :: "string \<Rightarrow> string" where
  \<comment> \<open>\<open>s.strip()\<close>: leading and trailing whitespace removed.\<close>
  "strip s = rev (dropWhile isspace (rev (dropWhile isspace s)))"

section \<open>The regular expressions of Python's \<open>re\<close>\<close>

text \<open>
  The fragment of \<open>re\<close> the plugin's patterns are written in, in parsed form. A
  pattern is run by backtracking, as \<open>re\<close> does: \<open>ends r (b, s)\<close> lists, in the order
  the matcher tries them, the states in which a match of \<open>r\<close> that starts in
  \<open>(b, s)\<close> can end. A state is the text \<open>s\<close> still to be read and the flag \<open>b\<close>
  that says whether the matcher stands at the very start of the subject string.
\<close>

datatype regex =
    Eps                     \<comment> \<open>the empty pattern\<close>
  | Sym "char \<Rightarrow> bool"      \<comment> \<open>one character of a class\<close>
  | Seq regex regex         \<comment> \<open>\<open>ab\<close>\<close>
  | Alt regex regex         \<comment> \<open>\<open>a|b\<close>, \<open>a\<close> tried first\<close>
  | Star regex              \<comment> \<open>\<open>a*\<close>, greedy\<close>
  | Bol                     \<comment> \<open>\<open>^\<close> (no MULTILINE)\<close>
  | Eol                     \<comment> \<open>\<open>$\<close> (no MULTILINE)\<close>

type_synonym mstate = "bool \<times> string"

primrec star_iter :: "nat \<Rightarrow> (mstate \<Rightarrow> mstate list) \<Rightarrow> mstate \<Rightarrow> mstate list" where
  "star_iter 0 f st = [st]"
| "star_iter (Suc n) f st =
     concat (map (star_iter n f)
               (filter (\<lambda>st'. length (snd st') < length (snd st)) (f st))) @ [st]"

primrec ends :: "regex \<Rightarrow> mstate \<Rightarrow> mstate list" where
  "ends Eps = (\<lambda>st. [st])"
| "ends (Sym P) =
     (\<lambda>st. case snd st of [] \<Rightarrow> [] | c # cs \<Rightarrow> if P c then [(False, cs)] else [])"
| "ends (Seq r1 r2) = (\<lambda>st. concat (map (ends r2) (ends r1 st)))"
| "ends (Alt r1 r2) = (\<lambda>st. ends r1 st @ ends r2 st)"
| "ends (Star r) = (\<lambda>st. star_iter (length (snd st)) (ends r) st)"
| "ends Bol = (\<lambda>st. if fst st then [st] else [])"
| "ends Eol = (\<lambda>st. if snd st = [] \<or> snd st = [CHR 0x0A] then [st] else [])"

definition Opt :: "regex \<Rightarrow> regex" where
  \<comment> \<open>\<open>a?\<close>, greedy\<close>
  "Opt r = Alt r Eps"

definition lit_ic :: "char \<Rightarrow> regex" where
  \<comment> \<open>a literal character under \<open>re.IGNORECASE\<close>\<close>
  "lit_ic c = Sym (\<lambda>x. lower x = lower c)"

primrec lits_ic :: "string \<Rightarrow> regex" where
  \<comment> \<open>\<open>re.escape(name)\<close> under \<open>re.IGNORECASE\<close>: the characters of the name, each a literal\<close>
  "lits_ic [] = Eps"
| "lits_ic (c # cs) = Seq (lit_ic c) (lits_ic cs)"

primrec lits :: "string \<Rightarrow> regex" where
  \<comment> \<open>a pattern without metacharacters, no flags\<close>
  "lits [] = Eps"
| "lits (c # cs) = Seq (Sym (\<lambda>x. x = c)) (lits cs)"

definition re_match :: "regex \<Rightarrow> string \<Rightarrow> bool" where
  \<comment> \<open>truth of \<open>re.match(r, s)\<close>: a match that starts at the start of \<open>s\<close>\<close>
  "re_match r s = (ends r (True, s) \<noteq> [])"

primrec search_from :: "regex \<Rightarrow> bool \<Rightarrow> string \<Rightarrow> bool" where
  "search_from r b [] = (ends r (b, []) \<noteq> [])"
| "search_from r b (c # cs) = (if ends r (b, c # cs) \<noteq> [] then True else search_from r False cs)"

definition re_search :: "regex \<Rightarrow> string \<Rightarrow> bool" where
  \<comment> \<open>truth of \<open>re.search(r, s)\<close>: a match that starts anywhere in \<open>s\<close>\<close>
  "re_search r s = search_from r True s"

definition first_advance :: "regex \<Rightarrow> mstate \<Rightarrow> mstate option" where
  \<comment> \<open>the end of the match \<open>re.sub\<close> replaces at this position, when it is not empty\<close>
  "first_advance r st = find (\<lambda>st'. length (snd st') < length (snd st)) (ends r st)"

function sub_scan :: "regex \<Rightarrow> bool \<Rightarrow> string \<Rightarrow> string" where
  "sub_scan r b [] = []"
| "sub_scan r b (c # cs) =
     (case first_advance r (b, c # cs) of
        None \<Rightarrow> c # sub_scan r False cs
      | Some st' \<Rightarrow> sub_scan r False (snd st'))"
  by pat_completeness auto
termination
proof (relation "measure (\<lambda>(r, b, s). length s)")
  show "wf (measure (\<lambda>(r, b, s). length s))" by simp
next
  fix r :: regex and b :: bool and c :: char and cs :: string
  show "((r, False, cs), (r, b, c # cs)) \<in> measure (\<lambda>(r, b, s). length s)" by simp
next
  fix r :: regex and b :: bool and c :: char and cs :: string and st' :: mstate
  assume "first_advance r (b, c # cs) = Some st'"
  then have "length (snd st') < length (c # cs)"
    by (auto simp: first_advance_def find_Some_iff)
  then show "((r, False, snd st'), (r, b, c # cs)) \<in> measure (\<lambda>(r, b, s). length s)"
    by simp
qed

definition re_sub_empty :: "regex \<Rightarrow> string \<Rightarrow> string" where
  \<comment> \<open>\<open>re.sub(r, '', s)\<close>: every match, found left to right, is deleted (an empty
      match deletes nothing, and the scan moves on by one character)\<close>
  "re_sub_empty r s = sub_scan r True s"

function str_nat :: "nat \<Rightarrow> string" where
  "str_nat n =
     (if n < 10 then [char_of (48 + n)]
      else str_nat (n div 10) @ [char_of (48 + n mod 10)])"
  by pat_completeness auto
termination
  by (relation "measure id") auto

declare str_nat.simps [simp del]

definition str_int :: "int \<Rightarrow> string" where
  \<comment> \<open>\<open>str(i)\<close> of an \<open>int\<close>, as an f-string prints it\<close>
  "str_int i = (if i < 0 then CHR ''-'' # str_nat (nat (- i)) else str_nat (nat i))"

section \<open>Data\<close>

datatype json =
    JNull
  | JBool bool
  | JInt int
  | JReal real
  | JStr string
  | JArr "json list"
  | JObj "(string \<times> json) list"

text \<open>A Python \<open>dict\<close> with string keys, in insertion order.\<close>

type_synonym dict = "(string \<times> json) list"

primrec dict_set :: "dict \<Rightarrow> string \<Rightarrow> json \<Rightarrow> dict" where
  \<comment> \<open>\<open>d[k] = v\<close>\<close>
  "dict_set [] k v = [(k, v)]"
| "dict_set (kv # kvs) k v =
     (if fst kv = k then (k, v) # kvs else kv # dict_set kvs k v)"

definition dict_has :: "dict \<Rightarrow> string \<Rightarrow> bool" where
  \<comment> \<open>\<open>k in d\<close>\<close>
  "dict_has d k = (map_of d k \<noteq> None)"

datatype exn =
    KeyError json
  | IndexError
  | TypeError
  | External string    \<comment> \<open>raised by the chat client or the HTTP transport\<close>

datatype msgtype = TEXT | NOTICE | EMOTE | IMAGE | VIDEO | AUDIO | FILE | LOCATION

datatype format = HTML

record message_content =
  msgtype :: msgtype
  body :: string
  format :: "format option"
  formatted_body :: "string option"
  in_reply_to :: "string option"     \<comment> \<open>\<open>relates_to.in_reply_to\<close>: the parent's event id\<close>
  custom :: dict                     \<comment> \<open>keys outside the message schema\<close>

record message_event =
  sender :: string
  room_id :: string
  content :: message_content

text \<open>
  The options \<open>Config.do_update\<close> copies and the plugin reads. \<open>None\<close> is an
  option that is absent (or null); the patterns of \<open>allowed_users\<close> are held in
  parsed form, and a temperature is a number that is passed on, never computed with.
\<close>

record config =
  openrouter_api_key :: string
  model :: "string option"
  max_tokens :: "int option"
  temperature :: "real option"
  allowed_users :: "regex list"
  name :: "string option"

text \<open>The plugin object after \<open>start\<close>: its configuration, \<open>self.client.mxid\<close>,
  \<open>self.name\<close> and \<open>self.api_endpoint\<close>.\<close>

record plugin =
  config :: config
  client_mxid :: string
  bot_name :: string
  api_endpoint :: string

definition start :: "config \<Rightarrow> string \<Rightarrow> plugin" where
  "start cfg own =
     \<lparr>config = cfg, client_mxid = own,
      bot_name = (case name cfg of None \<Rightarrow> ''fxivity'' | Some n \<Rightarrow> n),
      api_endpoint = ''https://openrouter.ai/api/v1/chat/completions''\<rparr>"

record request =
  url :: string
  headers :: "(string \<times> string) list"
  data :: dict                       \<comment> \<open>the dict that \<open>json.dumps\<close> serialises\<close>

datatype http_result =
    Raised exn                                \<comment> \<open>the POST itself raises\<close>
  | Response int string "exn + json"          \<comment> \<open>status, \<open>text()\<close>, \<open>json()\<close>\<close>

datatype reply = Content message_content | Text string

text \<open>
  The collaborators the plugin calls: the chat client, the HTTP session, the
  markdown renderer and the interpreter's \<open>str\<close> of an exception. Each call's
  outcome is given by the environment; \<open>Inl\<close> or \<open>Some e\<close> is the call raising \<open>e\<close>.
\<close>

record world =
  joined_members :: "string \<Rightarrow> exn + string list"
  get_event :: "string \<Rightarrow> string \<Rightarrow> exn + message_event option"
  mark_read :: "exn option"
  set_typing :: "nat \<Rightarrow> exn option"
  http_post :: "request \<Rightarrow> http_result"
  render :: "string \<Rightarrow> string"
  respond :: "reply \<Rightarrow> exn option"
  exc_str :: "exn \<Rightarrow> string"

datatype action =
    MarkRead
  | SetTyping nat
  | HttpPost request
  | Respond reply
  | LogError string
  | LogException string

section \<open>The responder gate\<close>

primrec allowed_loop :: "regex list \<Rightarrow> string \<Rightarrow> bool" where
  \<comment> \<open>the \<open>for pattern in allowed_users\<close> loop of \<open>user_allowed\<close>\<close>
  "allowed_loop [] who = False"
| "allowed_loop (p # ps) who = (if re_match p who then True else allowed_loop ps who)"

definition user_allowed :: "plugin \<Rightarrow> string \<Rightarrow> bool" where
  "user_allowed self who =
     (if allowed_users (config self) = [] then True
      else allowed_loop (allowed_users (config self)) who)"

definition mention_re :: "string \<Rightarrow> regex" where
  \<comment> \<open>\<open>r"(^|\s)(@)?" + re.escape(bot_name) + r"([ :,.!?]|$)"\<close>, \<open>re.IGNORECASE\<close>\<close>
  "mention_re nm =
     Seq (Alt Bol (Sym isspace))
       (Seq (Opt (lit_ic CHR ''@''))
         (Seq (lits_ic nm)
           (Alt (Sym (\<lambda>c. c \<in> set '' :,.!?'')) Eol)))"

definition marker :: string where
  "marker = ''org.example.perplexity''"

definition rejected :: "plugin \<Rightarrow> message_event \<Rightarrow> bool" where
  \<comment> \<open>"Ignore self, commands, and non-text messages"\<close>
  "rejected self evt =
     (sender evt = client_mxid self \<or>
      startswith (body (content evt)) ''!'' \<or>
      msgtype (content evt) \<noteq> TEXT)"

definition direct_address :: "plugin \<Rightarrow> message_event \<Rightarrow> bool" where
  \<comment> \<open>"Check for bot name mention or sonar command"\<close>
  "direct_address self evt =
     (re_search (mention_re (bot_name self)) (body (content evt)) \<or>
      startswith (body (content evt)) ''!sonar'')"

definition is_dm :: "world \<Rightarrow> message_event \<Rightarrow> bool" where
  \<comment> \<open>"Reply to DMs": two joined members; a failed lookup is passed over\<close>
  "is_dm w evt =
     (case joined_members w (room_id evt) of
        Inl e \<Rightarrow> False
      | Inr members \<Rightarrow> length members = 2)"

definition replies_to_bot :: "plugin \<Rightarrow> world \<Rightarrow> message_event \<Rightarrow> bool" where
  \<comment> \<open>"Reply to messages replying to bot by checking if parent message has custom
      metadata"; a failed fetch is logged and passed over. \<open>k in content\<close> is
      the presence of the key \<open>k\<close> among the content's fields.\<close>
  "replies_to_bot self w evt =
     (case in_reply_to (content evt) of
        None \<Rightarrow> False
      | Some parent_id \<Rightarrow>
          (case get_event w (room_id evt) parent_id of
             Inl e \<Rightarrow> False
           | Inr None \<Rightarrow> False
           | Inr (Some parent_event) \<Rightarrow>
               sender parent_event = client_mxid self \<and>
               dict_has (custom (content parent_event)) marker))"

definition should_respond :: "plugin \<Rightarrow> world \<Rightarrow> message_event \<Rightarrow> bool" where
  "should_respond self w evt =
     (if rejected self evt then False
      else if direct_address self evt then user_allowed self (sender evt)
      else if is_dm w evt then user_allowed self (sender evt)
      else if replies_to_bot self w evt then user_allowed self (sender evt)
      else False)"

section \<open>The answer pipeline\<close>

definition strip_re :: "string \<Rightarrow> regex" where
  \<comment> \<open>\<open>r'@?' + re.escape(self.name) + r'[\s:,.!?]*'\<close>, \<open>re.IGNORECASE\<close>\<close>
  "strip_re nm =
     Seq (Opt (lit_ic CHR ''@''))
       (Seq (lits_ic nm) (Star (Sym (\<lambda>c. isspace c \<or> c \<in> set '':,.!?''))))"

definition extract_query :: "string \<Rightarrow> string \<Rightarrow> string" where
  \<comment> \<open>"Extract query" of \<open>on_message\<close>\<close>
  "extract_query nm query =
     (if startswith query ''!sonar'' then strip (drop 6 query)
      else strip (re_sub_empty (strip_re nm) query))"

definition request_data :: "config \<Rightarrow> string \<Rightarrow> dict" where
  \<comment> \<open>the \<open>data\<close> dict of \<open>_call_openrouter\<close>; \<open>if max_tokens:\<close> is Python's
      truth test, \<open>if temperature is not None:\<close> is not\<close>
  "request_data cfg query =
     (let d0 = [(''model'', JStr (case model cfg of None \<Rightarrow> ''perplexity/sonar-pro'' | Some m \<Rightarrow> m)),
                (''messages'', JArr [JObj [(''role'', JStr ''user''), (''content'', JStr query)]])];
          d1 = (case max_tokens cfg of
                  None \<Rightarrow> d0
                | Some n \<Rightarrow> if n \<noteq> 0 then dict_set d0 ''max_tokens'' (JInt n) else d0);
          d2 = (case temperature cfg of
                  None \<Rightarrow> d1
                | Some t \<Rightarrow> dict_set d1 ''temperature'' (JReal t))
      in d2)"

definition build_request :: "plugin \<Rightarrow> string \<Rightarrow> request" where
  "build_request self query =
     \<lparr>url = api_endpoint self,
      headers = [(''Content-Type'', ''application/json''),
                 (''Authorization'', ''Bearer '' @ openrouter_api_key (config self)),
                 (''HTTP-Referer'', ''https://github.com/example/perplexity-maubot''),
                 (''X-Title'', ''Perplexity Maubot Plugin'')],
      data = request_data (config self) query\<rparr>"

definition getitem_key :: "json \<Rightarrow> string \<Rightarrow> exn + json" where
  \<comment> \<open>\<open>j[k]\<close> for a string \<open>k\<close>\<close>
  "getitem_key j k =
     (case j of
        JObj kvs \<Rightarrow> (case map_of kvs k of None \<Rightarrow> Inl (KeyError (JStr k)) | Some v \<Rightarrow> Inr v)
      | _ \<Rightarrow> Inl TypeError)"

definition getitem_first :: "json \<Rightarrow> exn + json" where
  \<comment> \<open>\<open>j[0]\<close>\<close>
  "getitem_first j =
     (case j of
        JArr xs \<Rightarrow> (case xs of [] \<Rightarrow> Inl IndexError | x # _ \<Rightarrow> Inr x)
      | JStr s \<Rightarrow> (case s of [] \<Rightarrow> Inl IndexError | c # _ \<Rightarrow> Inr (JStr [c]))
      | JObj kvs \<Rightarrow> Inl (KeyError (JInt 0))
      | _ \<Rightarrow> Inl TypeError)"

definition first_choice :: "json \<Rightarrow> exn + json" where
  \<comment> \<open>\<open>response_json["choices"][0]["message"]["content"]\<close>\<close>
  "first_choice j =
     (case getitem_key j ''choices'' of
        Inl e \<Rightarrow> Inl e
      | Inr cs \<Rightarrow>
          (case getitem_first cs of
             Inl e \<Rightarrow> Inl e
           | Inr c \<Rightarrow>
               (case getitem_key c ''message'' of
                  Inl e \<Rightarrow> Inl e
                | Inr m \<Rightarrow> getitem_key m ''content'')))"

definition call_openrouter :: "plugin \<Rightarrow> world \<Rightarrow> string \<Rightarrow> action list \<times> (exn + json)" where
  \<comment> \<open>\<open>_call_openrouter\<close>: what it does, and what it returns or raises\<close>
  "call_openrouter self w query =
     (let req = build_request self query
      in case http_post w req of
           Raised e \<Rightarrow> ([HttpPost req], Inl e)
         | Response status error_text js \<Rightarrow>
             if status \<noteq> 200
             then ([HttpPost req,
                    LogError (''OpenRouter API error: '' @ str_int status @ '' - '' @ error_text)],
                   Inr (JStr (''Error: API returned status '' @ str_int status)))
             else (case js of
                     Inl e \<Rightarrow> ([HttpPost req], Inl e)
                   | Inr response_json \<Rightarrow> ([HttpPost req], first_choice response_json)))"

definition answer_content :: "world \<Rightarrow> string \<Rightarrow> message_content" where
  \<comment> \<open>the \<open>TextMessageEventContent\<close> of "Send response", the marker set\<close>
  "answer_content w response =
     \<lparr>msgtype = NOTICE, body = response, format = Some HTML,
      formatted_body = Some (render w response), in_reply_to = None,
      custom = dict_set [] marker (JBool True)\<rparr>"

definition try_block :: "plugin \<Rightarrow> world \<Rightarrow> message_event \<Rightarrow> action list \<times> (exn + unit)" where
  \<comment> \<open>the \<open>try:\<close> suite of \<open>on_message\<close>. A \<open>content\<close> of the provider that is no
      string makes \<open>markdown.render\<close> raise \<open>TypeError\<close>.\<close>
  "try_block self w evt =
     (case mark_read w of
        Some e \<Rightarrow> ([MarkRead], Inl e)
      | None \<Rightarrow>
          (case set_typing w 30000 of
             Some e \<Rightarrow> ([MarkRead, SetTyping 30000], Inl e)
           | None \<Rightarrow>
               (let query = extract_query (bot_name self) (body (content evt));
                    called = call_openrouter self w query;
                    did = [MarkRead, SetTyping 30000] @ fst called
                in case snd called of
                     Inl e \<Rightarrow> (did, Inl e)
                   | Inr (JStr response) \<Rightarrow>
                       (did @ [Respond (Content (answer_content w response))],
                        case respond w (Content (answer_content w response)) of
                          Some e \<Rightarrow> Inl e
                        | None \<Rightarrow> Inr ())
                   | Inr _ \<Rightarrow> (did, Inl TypeError))))"

definition except_block :: "world \<Rightarrow> exn \<Rightarrow> action list \<times> exn option" where
  \<comment> \<open>the \<open>except Exception as e:\<close> suite\<close>
  "except_block w e =
     ([LogException (''Error handling message: '' @ exc_str w e),
       Respond (Text (''Something went wrong: '' @ exc_str w e))],
      respond w (Text (''Something went wrong: '' @ exc_str w e)))"

definition on_message :: "plugin \<Rightarrow> world \<Rightarrow> message_event \<Rightarrow> action list \<times> exn option" where
  \<comment> \<open>the calls made, in order, and the exception that leaves the handler, if any\<close>
  "on_message self w evt =
     (if \<not> should_respond self w evt then ([], None)
      else
        (let tried = try_block self w evt;
             handled = (case snd tried of
                          Inr u \<Rightarrow> ([], None)
                        | Inl e \<Rightarrow> except_block w e)
         in (fst tried @ fst handled @ [SetTyping 0],
             case set_typing w 0 of
               Some e \<Rightarrow> Some e
             | None \<Rightarrow> snd handled)))"

definition sonar :: "plugin \<Rightarrow> world \<Rightarrow> message_event \<Rightarrow> string \<Rightarrow> action list \<times> exn option" where
  \<comment> \<open>the \<open>sonar\<close> command handler: "Process the command using the same logic as
      message handler"\<close>
  "sonar self w evt query = on_message self w evt"

definition sent_content :: "world \<Rightarrow> reply \<Rightarrow> message_content" where
  \<comment> \<open>the content of the event \<open>evt.respond\<close> sends: a content as it is, a plain
      string as a notice that carries no key besides the message schema's\<close>
  "sent_content w r =
     (case r of
        Content c \<Rightarrow> c
      | Text s \<Rightarrow>
          \<lparr>msgtype = NOTICE, body = s, format = Some HTML,
           formatted_body = Some (render w s), in_reply_to = None, custom = []\<rparr>)"

section \<open>The specification's words\<close>

text \<open>
  Definitions that follow the wording of the specification, not the code: what
  it is for a pattern to match a whole string, the query as the specification
  derives it, and the deletion of a name from a text as a scan. They are what the
  code's definitions above are compared with.
\<close>

definition re_fullmatch :: "regex \<Rightarrow> string \<Rightarrow> bool" where
  \<comment> \<open>truth of \<open>re.fullmatch(r, s)\<close>: a match of the whole of \<open>s\<close>\<close>
  "re_fullmatch r s = list_ex (\<lambda>st. snd st = []) (ends r (True, s))"

definition mention_query :: "string \<Rightarrow> string \<Rightarrow> string" where
  \<comment> \<open>the query as the specification words it: off the command path, every
      occurrence of the gate's name-mention pattern is removed\<close>
  "mention_query nm query =
     (if startswith query ''!sonar'' then strip (drop 6 query)
      else strip (re_sub_empty (mention_re nm) query))"

primrec ci_prefix :: "string \<Rightarrow> string \<Rightarrow> string option" where
  \<comment> \<open>the text after the name, where the text starts with the name in any case\<close>
  "ci_prefix [] s = Some s"
| "ci_prefix (n # ns) s =
     (case s of
        [] \<Rightarrow> None
      | c # cs \<Rightarrow> if lower c = lower n then ci_prefix ns cs else None)"

definition boundary :: "char \<Rightarrow> bool" where
  "boundary c = (isspace c \<or> c \<in> set '':,.!?'')"

definition name_here :: "string \<Rightarrow> string \<Rightarrow> string option" where
  \<comment> \<open>an occurrence of the name at the head of the text, with an \<open>@\<close> before it when
      there is one: the text after it and after the boundary characters that follow\<close>
  "name_here nm s =
     (case (case s of
              [] \<Rightarrow> None
            | c # cs \<Rightarrow> if c = CHR ''@'' then ci_prefix nm cs else None) of
        Some rest \<Rightarrow> Some (dropWhile boundary rest)
      | None \<Rightarrow> map_option (dropWhile boundary) (ci_prefix nm s))"

function delete_names :: "string \<Rightarrow> string \<Rightarrow> string" where
  \<comment> \<open>the text without the occurrences of the name, read left to right\<close>
  "delete_names nm [] = []"
| "delete_names nm (c # cs) =
     (case name_here nm (c # cs) of
        None \<Rightarrow> c # delete_names nm cs
      | Some rest \<Rightarrow>
          if length rest < Suc (length cs) then delete_names nm rest
          else c # delete_names nm cs)"
  by pat_completeness auto
termination
  by (relation "measure (\<lambda>(nm, s). length s)") auto

section \<open>A room, a bot and a provider\<close>

definition ex_config :: config where
  "ex_config =
     \<lparr>openrouter_api_key = ''sk-test'', model = None, max_tokens = None,
      temperature = None, allowed_users = [], name = None\<rparr>"

definition ex_bot :: plugin where
  "ex_bot = start ex_config ''@fxivity:example.org''"

definition text_event :: "string \<Rightarrow> string \<Rightarrow> message_event" where
  "text_event who txt =
     \<lparr>sender = who, room_id = ''!room:example.org'',
      content = \<lparr>msgtype = TEXT, body = txt, format = None, formatted_body = None,
                 in_reply_to = None, custom = []\<rparr>\<rparr>"

definition reply_event :: "string \<Rightarrow> string \<Rightarrow> string \<Rightarrow> message_event" where
  "reply_event who txt parent_id =
     \<lparr>sender = who, room_id = ''!room:example.org'',
      content = \<lparr>msgtype = TEXT, body = txt, format = None, formatted_body = None,
                 in_reply_to = Some parent_id, custom = []\<rparr>\<rparr>"

definition ex_answer :: json where
  "ex_answer =
     JObj [(''choices'', JArr [JObj [(''message'', JObj [(''content'', JStr ''4'')])]])]"

definition ex_world :: world where
  \<comment> \<open>a room of three, a provider that answers "4", a chat client that works\<close>
  "ex_world =
     \<lparr>joined_members =
        (\<lambda>room. Inr [''@fxivity:example.org'', ''@alice:example.org'', ''@bob:example.org'']),
      get_event = (\<lambda>room eid. Inl (External ''M_NOT_FOUND'')),
      mark_read = None,
      set_typing = (\<lambda>timeout. None),
      http_post = (\<lambda>req. Response 200 ''{}'' (Inr ex_answer)),
      render = (\<lambda>s. ''<p>'' @ s @ ''</p>''),
      respond = (\<lambda>r. None),
      exc_str = (\<lambda>e. case e of External m \<Rightarrow> m | _ \<Rightarrow> ''error'')\<rparr>"

definition failing_provider :: world where
  \<comment> \<open>the same, the provider answering 500 "server error"\<close>
  "failing_provider =
     ex_world\<lparr>http_post := (\<lambda>req. Response 500 ''server error'' (Inl (External ''no JSON'')))\<rparr>"

definition unreachable_provider :: world where
  \<comment> \<open>the same, the POST raising\<close>
  "unreachable_provider = ex_world\<lparr>http_post := (\<lambda>req. Raised (External ''timeout''))\<rparr>"

definition alice_only :: plugin where
  \<comment> \<open>the same bot, its allow-list the one pattern \<open>@alice:example\.org\<close>\<close>
  "alice_only =
     start (ex_config\<lparr>allowed_users := [lits ''@alice:example.org'']\<rparr>) ''@fxivity:example.org''"

definition answered_world :: world where
  \<comment> \<open>the room of \<open>ex_world\<close>, every fetched parent the bot's answer "4"\<close>
  "answered_world =
     ex_world\<lparr>get_event :=
       (\<lambda>room eid. Inr (Some \<lparr>sender = ''@fxivity:example.org'', room_id = room,
                               content = answer_content ex_world ''4''\<rparr>))\<rparr>"

definition apology_world :: world where
  \<comment> \<open>the same, every fetched parent the bot's message after the POST raised\<close>
  "apology_world =
     ex_world\<lparr>get_event :=
       (\<lambda>room eid.
          Inr (Some \<lparr>sender = ''@fxivity:example.org'', room_id = room,
                     content = sent_content unreachable_provider
                                 (Text ''Something went wrong: timeout'')\<rparr>))\<rparr>"

section \<open>Strings and patterns: basic facts\<close>

lemma startswith_prefix: "startswith s (p @ q) \<Longrightarrow> startswith s p"
proof -
  assume a: "startswith s (p @ q)"
  have "take (length p) s = take (length p) (take (length (p @ q)) s)"
    by (simp add: min_def)
  also have "\<dots> = take (length p) (p @ q)"
    using a by (simp only: startswith_def)
  finally show ?thesis by (simp add: startswith_def)
qed

lemma ends_lits:
  "ends (lits pat) (b, s) =
     (if startswith s pat then [(b \<and> pat = [], drop (length pat) s)] else [])"
proof (induction pat arbitrary: b s)
  case Nil
  then show ?case by (simp add: startswith_def)
next
  case (Cons c pat)
  show ?case
  proof (cases s)
    case Nil
    then show ?thesis by (simp add: startswith_def)
  next
    case (Cons d ds)
    then show ?thesis
      using Cons.IH [of False ds] by (auto simp: startswith_def)
  qed
qed

lemma re_match_lits: "re_match (lits pat) who \<longleftrightarrow> startswith who pat"
  by (simp add: re_match_def ends_lits)


lemma lower_at: "lower x = lower CHR ''@'' \<longleftrightarrow> x = CHR ''@''"
proof -
  have l: "lower CHR ''@'' = CHR ''@''" by (simp add: lower_def)
  show ?thesis
  proof
    assume a: "lower x = lower CHR ''@''"
    show "x = CHR ''@''"
    proof (cases "(65 \<le> (of_char x :: nat) \<and> (of_char x :: nat) \<le> 90) \<or>
                  (192 \<le> (of_char x :: nat) \<and> (of_char x :: nat) \<le> 222 \<and>
                   (of_char x :: nat) \<noteq> 215)")
      case True
      then have "lower x = char_of ((of_char x :: nat) + 32)"
        by (simp only: lower_def Let_def if_True)
      then have "char_of ((of_char x :: nat) + 32) = CHR ''@''" using a l by simp
      then have "of_char (char_of ((of_char x :: nat) + 32) :: char) = (of_char CHR ''@'' :: nat)"
        by simp
      then have m: "((of_char x :: nat) + 32) mod 256 = 64" by (simp add: of_char_of)
      have "(of_char x :: nat) + 32 < 256" using True by linarith
      then have "((of_char x :: nat) + 32) mod 256 = of_char x + 32" by (rule mod_less)
      then have "(of_char x :: nat) + 32 = 64" using m by simp
      then have False using True by linarith
      then show ?thesis ..
    next
      case False
      then have "lower x = x" by (simp only: lower_def Let_def if_False)
      then show ?thesis using a l by simp
    qed
  next
    assume "x = CHR ''@''"
    then show "lower x = lower CHR ''@''" by simp
  qed
qed

lemma find_append:
  "find Q (xs @ ys) = (case find Q xs of None \<Rightarrow> find Q ys | Some x \<Rightarrow> Some x)"
  by (induction xs) auto

lemma ci_prefix_length: "ci_prefix nm s = Some r \<Longrightarrow> length r \<le> length s"
proof (induction nm arbitrary: s)
  case Nil
  then show ?case by simp
next
  case (Cons n ns)
  then show ?case by (cases s) (auto split: if_splits dest!: Cons.IH)
qed

lemma ends_lits_ic:
  "ends (lits_ic nm) (b, s) =
     (case ci_prefix nm s of None \<Rightarrow> [] | Some r \<Rightarrow> [(b \<and> nm = [], r)])"
proof (induction nm arbitrary: b s)
  case Nil
  then show ?case by simp
next
  case (Cons n ns)
  show ?case
  proof (cases s)
    case Nil
    then show ?thesis by (simp add: lit_ic_def)
  next
    case (Cons c cs)
    then show ?thesis
      using Cons.IH [of False cs] by (simp add: lit_ic_def split: option.splits)
  qed
qed

text \<open>A greedy star over one character class tries the longest run first.\<close>

lemma star_sym:
  "length s \<le> n \<Longrightarrow>
     \<exists>b' xs. star_iter n (ends (Sym P)) (b, s) = (b', dropWhile P s) # xs \<and>
             (\<forall>y\<in>set xs. length (dropWhile P s) \<le> length (snd y))"
proof (induction n arbitrary: b s)
  case 0
  then show ?case by simp
next
  case (Suc n)
  show ?case
  proof (cases s)
    case Nil
    then show ?thesis by simp
  next
    case (Cons c cs)
    show ?thesis
    proof (cases "P c")
      case True
      from Suc.prems Cons have "length cs \<le> n" by simp
      from Suc.IH [OF this, of False] obtain b' xs where
        st: "star_iter n (ends (Sym P)) (False, cs) = (b', dropWhile P cs) # xs"
        and le: "\<forall>y\<in>set xs. length (dropWhile P cs) \<le> length (snd y)"
        by blast
      have "length (dropWhile P cs) \<le> length cs" by (rule length_dropWhile_le)
      then show ?thesis using Cons True st le by auto
    next
      case False
      then show ?thesis using Cons by simp
    qed
  qed
qed

section \<open>The query pattern, read as a scan\<close>

lemma find_tail_ends:
  "map_option snd
     (find (\<lambda>st'. length (snd st') < L)
        (ends (Seq (lits_ic nm) (Star (Sym boundary))) (b, s))) =
     (case ci_prefix nm s of
        None \<Rightarrow> None
      | Some r \<Rightarrow>
          if length (dropWhile boundary r) < L then Some (dropWhile boundary r) else None)"
proof (cases "ci_prefix nm s")
  case None
  then show ?thesis by (simp add: ends_lits_ic)
next
  case (Some r)
  obtain b' xs where
    st: "star_iter (length r) (ends (Sym boundary)) (b \<and> nm = [], r) =
           (b', dropWhile boundary r) # xs"
    and le: "\<forall>y\<in>set xs. length (dropWhile boundary r) \<le> length (snd y)"
    using star_sym [of r "length r" boundary "b \<and> nm = []"] by auto
  have none: "find (\<lambda>st'. length (snd st') < L) xs = None"
    if "\<not> length (dropWhile boundary r) < L"
    using that le by (auto simp: find_None_iff)
  show ?thesis
    using Some st none by (simp add: ends_lits_ic)
qed

lemma strip_re_boundary:
  "strip_re nm = Seq (Opt (lit_ic CHR ''@'')) (Seq (lits_ic nm) (Star (Sym boundary)))"
proof -
  have "(\<lambda>c. isspace c \<or> c \<in> set '':,.!?'') = boundary"
    by (rule ext) (simp only: boundary_def)
  then show ?thesis by (simp only: strip_re_def)
qed

lemma first_advance_strip_re:
  "map_option snd (first_advance (strip_re nm) (b, s)) =
     (case name_here nm s of
        None \<Rightarrow> None
      | Some rest \<Rightarrow> if length rest < length s then Some rest else None)"
proof -
  let ?Q = "\<lambda>st'::mstate. length (snd st') < length s"
  let ?T = "ends (Seq (lits_ic nm) (Star (Sym boundary)))"
  have opt: "ends (Opt (lit_ic CHR ''@'')) (b, s) =
      (case s of [] \<Rightarrow> [] | c # cs \<Rightarrow> if c = CHR ''@'' then [(False, cs)] else []) @ [(b, s)]"
    by (simp add: Opt_def lit_ic_def lower_at split: list.splits)
  show ?thesis
  proof (cases "\<exists>cs r. s = CHR ''@'' # cs \<and> ci_prefix nm cs = Some r")
    case True
    then obtain cs r where s: "s = CHR ''@'' # cs" and p: "ci_prefix nm cs = Some r" by blast
    have "length (dropWhile boundary r) \<le> length r" by (rule length_dropWhile_le)
    moreover have "length r \<le> length cs" using p by (rule ci_prefix_length)
    ultimately have lt: "length (dropWhile boundary r) < length s" using s by simp
    have f: "map_option snd (find ?Q (?T (False, cs))) = Some (dropWhile boundary r)"
      using find_tail_ends [of "length s" nm False cs] p lt by simp
    have e: "ends (strip_re nm) (b, s) = ?T (False, cs) @ ?T (b, s)"
      unfolding strip_re_boundary using opt s by simp
    have "map_option snd (find ?Q (ends (strip_re nm) (b, s))) = Some (dropWhile boundary r)"
      unfolding e find_append using f by (auto split: option.splits)
    moreover have "name_here nm s = Some (dropWhile boundary r)"
      using s p by (simp add: name_here_def)
    ultimately show ?thesis using lt by (simp add: first_advance_def)
  next
    case False
    have e: "ends (strip_re nm) (b, s) =
        (case s of [] \<Rightarrow> [] | c # cs \<Rightarrow> if c = CHR ''@'' then ?T (False, cs) else []) @ ?T (b, s)"
      unfolding strip_re_boundary using opt by (simp split: list.splits)
    have a: "(case s of [] \<Rightarrow> [] | c # cs \<Rightarrow> if c = CHR ''@'' then ?T (False, cs) else []) = []"
      using False by (auto simp: ends_lits_ic split: list.splits option.splits)
    have n: "name_here nm s = map_option (dropWhile boundary) (ci_prefix nm s)"
      using False by (auto simp: name_here_def split: list.splits option.splits)
    show ?thesis
      unfolding first_advance_def e a n
      using find_tail_ends [of "length s" nm b s]
      by (simp split: option.splits)
  qed
qed

lemma sub_scan_strip_re: "sub_scan (strip_re nm) b s = delete_names nm s"
proof (induction s arbitrary: b rule: length_induct)
  case (1 s)
  show ?case
  proof (cases s)
    case Nil
    then show ?thesis by simp
  next
    case (Cons c cs)
    have ih: "sub_scan (strip_re nm) False t = delete_names nm t" if "length t < length s" for t
      using 1 that by blast
    show ?thesis
    proof (cases "first_advance (strip_re nm) (b, s)")
      case None
      then have "(case name_here nm s of None \<Rightarrow> None
                  | Some rest \<Rightarrow> if length rest < length s then Some rest else None) = None"
        using first_advance_strip_re [of nm b s] by simp
      then show ?thesis
        using None Cons ih [of cs] by (auto split: option.splits if_splits)
    next
      case (Some st')
      then have n: "(case name_here nm s of None \<Rightarrow> None
                  | Some rest \<Rightarrow> if length rest < length s then Some rest else None) =
                 Some (snd st')"
        using first_advance_strip_re [of nm b s] by simp
      then have lt: "length (snd st') < length s" by (auto split: option.splits if_splits)
      show ?thesis
        using Some Cons n ih [OF lt] by (auto split: option.splits if_splits)
    qed
  qed
qed

text \<open>
  C5, as the code has it. When the body starts with \<open>!sonar\<close> the query is the
  body without these six characters, trimmed. Otherwise it is the body, trimmed,
  after every occurrence of the bot name has been deleted from it, in any case,
  wherever it stands (inside a longer word too), together with an \<open>@\<close> right
  before it and the run of whitespace and \<open>:,.!?\<close> right after it. So both
  \<open>!sonar capital of France\<close> and \<open>fxivity: capital of France\<close> give
  \<open>capital of France\<close>.
\<close>

theorem extract_query_deletes_names:
  "extract_query nm query =
     (if startswith query ''!sonar'' then strip (drop 6 query)
      else strip (delete_names nm query)) \<and>
   extract_query nm (''!sonar'' @ rest) = strip rest \<and>
   extract_query ''fxivity'' ''!sonar capital of France'' = ''capital of France'' \<and>
   extract_query ''fxivity'' ''fxivity: capital of France'' = ''capital of France''"
proof -
  have a: "extract_query nm query =
     (if startswith query ''!sonar'' then strip (drop 6 query)
      else strip (delete_names nm query))"
    by (simp add: extract_query_def re_sub_empty_def sub_scan_strip_re)
  have b: "extract_query nm (''!sonar'' @ rest) = strip rest"
    by (simp add: extract_query_def startswith_def)
  have c: "extract_query ''fxivity'' ''!sonar capital of France'' = ''capital of France''"
    by code_simp
  have d: "extract_query ''fxivity'' ''fxivity: capital of France'' = ''capital of France''"
    by code_simp
  show ?thesis using a b c d by blast
qed

theorem extract_query_deletes_names_witness:
  "\<not> startswith ''hey @FXIVITY, is fxivityish a word?'' ''!sonar'' \<and>
   delete_names ''fxivity'' ''hey @FXIVITY, is fxivityish a word?'' = ''hey is ish a word?'' \<and>
   extract_query ''fxivity'' ''hey @FXIVITY, is fxivityish a word?'' = ''hey is ish a word?''"
proof -
  have s: "\<not> startswith ''hey @FXIVITY, is fxivityish a word?'' ''!sonar''"
    by (simp add: startswith_def)
  have d: "delete_names ''fxivity'' ''hey @FXIVITY, is fxivityish a word?'' = ''hey is ish a word?''"
    by code_simp
  have t: "strip ''hey is ish a word?'' = ''hey is ish a word?''"
    by code_simp
  show ?thesis
    using extract_query_deletes_names [of "''fxivity''" "''hey @FXIVITY, is fxivityish a word?''" "[]"]
      s d t
    by simp
qed

text \<open>
  C5, as it is worded, deletes the occurrences of the gate's name-mention
  pattern, where the name stands as a token of its own. The body
  \<open>fxivityish hello\<close> has none, and yet the query is \<open>ish hello\<close>.
\<close>

theorem name_inside_word_deleted:
  "extract_query ''fxivity'' ''fxivityish hello'' = ''ish hello'' \<and>
   mention_query ''fxivity'' ''fxivityish hello'' = ''fxivityish hello'' \<and>
   extract_query ''fxivity'' ''fxivityish hello'' \<noteq> mention_query ''fxivity'' ''fxivityish hello''"
  by code_simp

section \<open>The allow-list\<close>

lemma allowed_loop_iff: "allowed_loop ps who \<longleftrightarrow> (\<exists>p\<in>set ps. re_match p who)"
  by (induction ps) auto

text \<open>
  C2, as the code has it. With an empty allow-list \<open>user_allowed\<close> is true of every
  sender. With a non-empty one it is true exactly when some pattern of the list
  matches \<^emph>\<open>at the start\<close> of the sender's identity, as \<open>re.match\<close> does: the
  subject is the whole identity string, each pattern is anchored at its first
  character, and the match need not reach its end. The first pattern that
  matches decides, whatever patterns follow it. For a pattern without
  metacharacters this is: the identity starts with the pattern.
\<close>

theorem user_allowed_start_anchored:
  "(allowed_users (config self) = [] \<longrightarrow> user_allowed self who) \<and>
   (allowed_users (config self) \<noteq> [] \<longrightarrow>
      (user_allowed self who \<longleftrightarrow> (\<exists>p\<in>set (allowed_users (config self)). re_match p who))) \<and>
   (\<forall>ps p qs. allowed_users (config self) = ps @ p # qs \<and> re_match p who \<longrightarrow>
      user_allowed self who) \<and>
   (\<forall>p. re_fullmatch p who \<longrightarrow> re_match p who) \<and>
   (\<forall>pat. re_match (lits pat) who \<longleftrightarrow> startswith who pat)"
proof -
  have full: "re_match p who" if "re_fullmatch p who" for p
    using that by (auto simp: re_match_def re_fullmatch_def list_ex_iff)
  have loop: "user_allowed self who"
    if "allowed_users (config self) = ps @ p # qs" "re_match p who" for ps p qs
    using that by (auto simp: user_allowed_def allowed_loop_iff)
  show ?thesis
    using full loop by (auto simp: user_allowed_def allowed_loop_iff re_match_lits)
qed

theorem user_allowed_start_anchored_witness:
  "user_allowed ex_bot ''@bob:example.org'' \<and>
   allowed_users (config alice_only) \<noteq> [] \<and>
   user_allowed alice_only ''@alice:example.org'' \<and>
   \<not> user_allowed alice_only ''@bob:example.org'' \<and>
   user_allowed alice_only ''@alice:example.org.evil.net''"
proof -
  have e: "allowed_users (config ex_bot) = []"
    by (simp add: ex_bot_def start_def ex_config_def)
  have a: "allowed_users (config alice_only) = [] @ lits ''@alice:example.org'' # []"
    by (simp add: alice_only_def start_def ex_config_def)
  have ne: "allowed_users (config alice_only) \<noteq> []"
    using a by simp
  have m1: "re_match (lits ''@alice:example.org'') ''@alice:example.org''"
    unfolding re_match_lits by (simp add: startswith_def)
  have m2: "re_match (lits ''@alice:example.org'') ''@alice:example.org.evil.net''"
    unfolding re_match_lits by (simp add: startswith_def)
  have m3: "\<not> (\<exists>p\<in>set (allowed_users (config alice_only)). re_match p ''@bob:example.org'')"
    unfolding a
    by (simp only: append_Nil list.set ball_simps bex_simps re_match_lits insert_iff empty_iff)
       (simp add: startswith_def)
  show ?thesis
    using user_allowed_start_anchored [of ex_bot "''@bob:example.org''"]
      user_allowed_start_anchored [of alice_only "''@alice:example.org''"]
      user_allowed_start_anchored [of alice_only "''@alice:example.org.evil.net''"]
      user_allowed_start_anchored [of alice_only "''@bob:example.org''"]
      e a ne m1 m2 m3
    by blast
qed

text \<open>
  C2, as it is worded, asks for a pattern that matches the full identity string.
  The allow-list \<open>@alice:example\.org\<close> admits \<open>@alice:example.org.evil.net\<close>, which
  no pattern of the list matches in full.
\<close>

theorem prefix_of_identity_allowed:
  "\<not> (user_allowed alice_only ''@alice:example.org.evil.net'' \<longleftrightarrow>
        list_ex (\<lambda>p. re_fullmatch p ''@alice:example.org.evil.net'')
          (allowed_users (config alice_only)))"
  by code_simp

section \<open>The gate\<close>

text \<open>
  C3. A message whose sender is the bot's own identity is never gated true,
  whatever its body, its kind, its reply relation and the room's members.
\<close>

theorem own_message_never_answered:
  "sender evt = client_mxid self \<Longrightarrow> should_respond self w evt = False"
  by (simp add: should_respond_def rejected_def)

theorem own_message_never_answered_witness:
  "sender (text_event ''@fxivity:example.org'' ''fxivity hello'') = client_mxid ex_bot \<and>
   should_respond ex_bot ex_world (text_event ''@fxivity:example.org'' ''fxivity hello'') = False \<and>
   should_respond ex_bot ex_world (text_event ''@alice:example.org'' ''fxivity hello'') = True"
proof -
  have own: "sender (text_event ''@fxivity:example.org'' ''fxivity hello'') = client_mxid ex_bot"
    by (simp add: ex_bot_def start_def text_event_def)
  have other:
    "should_respond ex_bot ex_world (text_event ''@alice:example.org'' ''fxivity hello'') = True"
    by code_simp
  show ?thesis
    using own own_message_never_answered [OF own, of ex_world] other by simp
qed

lemma sonar_body_rejected:
  "startswith (body (content evt)) ''!sonar'' \<Longrightarrow> should_respond self w evt = False"
proof -
  assume "startswith (body (content evt)) ''!sonar''"
  then have "startswith (body (content evt)) (''!'' @ ''sonar'')" by simp
  then have "startswith (body (content evt)) ''!''" by (rule startswith_prefix)
  then show ?thesis by (simp add: should_respond_def rejected_def)
qed

text \<open>
  C1. The claim wants a text message that starts with \<open>!sonar\<close> to pass the first
  rule and to be gated by the allow-list under the second, through the \<open>sonar\<close>
  command too. The code's first rule rejects every body that starts with \<open>!\<close>:
  the message \<open>!sonar capital of France\<close> of an allowed sender, which the second
  rule's condition accepts, is gated false, and the \<open>sonar\<close> command does nothing.
\<close>

theorem sonar_command_unanswered:
  "user_allowed ex_bot ''@alice:example.org'' = True \<and>
   direct_address ex_bot (text_event ''@alice:example.org'' ''!sonar capital of France'') = True \<and>
   should_respond ex_bot ex_world
     (text_event ''@alice:example.org'' ''!sonar capital of France'') = False \<and>
   sonar ex_bot ex_world
     (text_event ''@alice:example.org'' ''!sonar capital of France'') ''capital of France'' =
     ([], None)"
  by code_simp

text \<open>
  C9. With the bot name \<open>fxivity\<close>, the name-mention pattern of the second rule
  is found in \<open>fxivity hello\<close>, \<open>@fxivity, hi\<close> and \<open>hi fxivity!\<close>, and is not found
  in \<open>fxivityish hello\<close>.
\<close>

theorem name_mention_examples:
  "bot_name ex_bot = ''fxivity'' \<and>
   re_search (mention_re (bot_name ex_bot)) ''fxivity hello'' \<and>
   re_search (mention_re (bot_name ex_bot)) ''@fxivity, hi'' \<and>
   re_search (mention_re (bot_name ex_bot)) ''hi fxivity!'' \<and>
   \<not> re_search (mention_re (bot_name ex_bot)) ''fxivityish hello'' \<and>
   direct_address ex_bot (text_event ''@alice:example.org'' ''fxivity hello'') \<and>
   direct_address ex_bot (text_event ''@alice:example.org'' ''@fxivity, hi'') \<and>
   direct_address ex_bot (text_event ''@alice:example.org'' ''hi fxivity!'') \<and>
   \<not> direct_address ex_bot (text_event ''@alice:example.org'' ''fxivityish hello'')"
  by code_simp

text \<open>
  C4. When neither the direct-address rule nor the two-member rule applies, the
  gate returns true only for a message that names a parent to which it replies,
  whose fetch returns an event that the bot sent and whose content holds the
  marker key, from a sender the allow-list admits. A parent without the marker, or
  a fetch that raises, gives false, allowed sender or not; a marked parent of the
  bot's gives the allow-list's verdict.
\<close>

theorem reply_chain_rule:
  "(should_respond self w evt \<and> \<not> direct_address self evt \<and> \<not> is_dm w evt \<longrightarrow>
      user_allowed self (sender evt) \<and>
      (\<exists>pid parent. in_reply_to (content evt) = Some pid \<and>
         get_event w (room_id evt) pid = Inr (Some parent) \<and>
         sender parent = client_mxid self \<and>
         dict_has (custom (content parent)) marker)) \<and>
   (\<forall>pid parent. \<not> direct_address self evt \<and> \<not> is_dm w evt \<and>
      in_reply_to (content evt) = Some pid \<and>
      get_event w (room_id evt) pid = Inr (Some parent) \<and>
      \<not> dict_has (custom (content parent)) marker \<longrightarrow>
      should_respond self w evt = False) \<and>
   (\<forall>pid e. \<not> direct_address self evt \<and> \<not> is_dm w evt \<and>
      in_reply_to (content evt) = Some pid \<and>
      get_event w (room_id evt) pid = Inl e \<longrightarrow>
      should_respond self w evt = False) \<and>
   (\<forall>pid parent. \<not> rejected self evt \<and> \<not> direct_address self evt \<and> \<not> is_dm w evt \<and>
      in_reply_to (content evt) = Some pid \<and>
      get_event w (room_id evt) pid = Inr (Some parent) \<and>
      sender parent = client_mxid self \<and>
      dict_has (custom (content parent)) marker \<longrightarrow>
      should_respond self w evt = user_allowed self (sender evt))"
proof -
  have only: "user_allowed self (sender evt) \<and>
      (\<exists>pid parent. in_reply_to (content evt) = Some pid \<and>
         get_event w (room_id evt) pid = Inr (Some parent) \<and>
         sender parent = client_mxid self \<and>
         dict_has (custom (content parent)) marker)"
    if "should_respond self w evt" "\<not> direct_address self evt" "\<not> is_dm w evt"
    using that
    by (auto simp: should_respond_def replies_to_bot_def
             split: if_splits option.splits sum.splits)
  have unmarked: "should_respond self w evt = False"
    if "\<not> direct_address self evt" "\<not> is_dm w evt" "in_reply_to (content evt) = Some pid"
      "get_event w (room_id evt) pid = Inr (Some parent)"
      "\<not> dict_has (custom (content parent)) marker" for pid parent
    using that by (simp add: should_respond_def replies_to_bot_def)
  have failed: "should_respond self w evt = False"
    if "\<not> direct_address self evt" "\<not> is_dm w evt" "in_reply_to (content evt) = Some pid"
      "get_event w (room_id evt) pid = Inl e" for pid e
    using that by (simp add: should_respond_def replies_to_bot_def)
  have marked: "should_respond self w evt = user_allowed self (sender evt)"
    if "\<not> rejected self evt" "\<not> direct_address self evt" "\<not> is_dm w evt"
      "in_reply_to (content evt) = Some pid"
      "get_event w (room_id evt) pid = Inr (Some parent)"
      "sender parent = client_mxid self" "dict_has (custom (content parent)) marker"
    for pid parent
    using that by (simp add: should_respond_def replies_to_bot_def)
  show ?thesis
    using only unmarked failed marked by blast
qed

theorem reply_chain_rule_witness:
  "should_respond ex_bot answered_world
     (reply_event ''@alice:example.org'' ''and 3+3?'' ''$answer'') \<and>
   \<not> direct_address ex_bot (reply_event ''@alice:example.org'' ''and 3+3?'' ''$answer'') \<and>
   \<not> is_dm answered_world (reply_event ''@alice:example.org'' ''and 3+3?'' ''$answer'') \<and>
   user_allowed ex_bot ''@alice:example.org'' \<and>
   (\<exists>parent. get_event answered_world ''!room:example.org'' ''$answer'' = Inr (Some parent) \<and>
      sender parent = client_mxid ex_bot \<and> dict_has (custom (content parent)) marker) \<and>
   should_respond ex_bot apology_world
     (reply_event ''@alice:example.org'' ''and 3+3?'' ''$apology'') = False \<and>
   should_respond ex_bot ex_world
     (reply_event ''@alice:example.org'' ''and 3+3?'' ''$lost'') = False"
proof -
  let ?e = "reply_event ''@alice:example.org'' ''and 3+3?'' ''$answer''"
  let ?a = "reply_event ''@alice:example.org'' ''and 3+3?'' ''$apology''"
  let ?l = "reply_event ''@alice:example.org'' ''and 3+3?'' ''$lost''"
  let ?p = "\<lparr>sender = ''@fxivity:example.org'', room_id = ''!room:example.org'',
            content = sent_content unreachable_provider (Text ''Something went wrong: timeout'')\<rparr>"
  have g: "should_respond ex_bot answered_world ?e" by code_simp
  have d: "\<not> direct_address ex_bot ?e" by code_simp
  have m: "\<not> is_dm answered_world ?e" by code_simp
  have da: "\<not> direct_address ex_bot ?a" by code_simp
  have ma: "\<not> is_dm apology_world ?a" by code_simp
  have ra: "in_reply_to (content ?a) = Some ''$apology''" by (simp add: reply_event_def)
  have pa: "get_event apology_world (room_id ?a) ''$apology'' = Inr (Some ?p)"
    by (simp add: apology_world_def reply_event_def)
  have na: "\<not> dict_has (custom (content ?p)) marker"
    by (simp add: sent_content_def dict_has_def)
  have dl: "\<not> direct_address ex_bot ?l" by code_simp
  have ml: "\<not> is_dm ex_world ?l" by code_simp
  have rl: "in_reply_to (content ?l) = Some ''$lost''" by (simp add: reply_event_def)
  have pl: "get_event ex_world (room_id ?l) ''$lost'' = Inl (External ''M_NOT_FOUND'')"
    by (simp add: ex_world_def)
  have ua: "user_allowed ex_bot ''@alice:example.org''" by code_simp
  have re: "room_id ?e = ''!room:example.org''" "in_reply_to (content ?e) = Some ''$answer''"
    by (simp_all add: reply_event_def)
  from reply_chain_rule [of ex_bot answered_world ?e] g d m
  have "\<exists>pid parent. in_reply_to (content ?e) = Some pid \<and>
         get_event answered_world (room_id ?e) pid = Inr (Some parent) \<and>
         sender parent = client_mxid ex_bot \<and>
         dict_has (custom (content parent)) marker" by blast
  then have ex: "\<exists>parent.
      get_event answered_world ''!room:example.org'' ''$answer'' = Inr (Some parent) \<and>
      sender parent = client_mxid ex_bot \<and> dict_has (custom (content parent)) marker"
    using re by auto
  have fa: "should_respond ex_bot apology_world ?a = False"
    using reply_chain_rule [of ex_bot apology_world ?a] da ma ra pa na by blast
  have fl: "should_respond ex_bot ex_world ?l = False"
    using reply_chain_rule [of ex_bot ex_world ?l] dl ml rl pl by blast
  show ?thesis using g d m ua ex fa fl by blast
qed

section \<open>The request\<close>




section \<open>The pipeline\<close>

lemma call_openrouter_no_clear: "SetTyping 0 \<notin> set (fst (call_openrouter self w q))"
  by (simp add: call_openrouter_def Let_def split: http_result.splits sum.splits)

lemma try_block_no_clear: "SetTyping 0 \<notin> set (fst (try_block self w evt))"
  by (auto simp: try_block_def Let_def call_openrouter_no_clear
           split: option.splits sum.splits json.splits)

lemma except_block_no_clear: "SetTyping 0 \<notin> set (fst (except_block w e))"
  by (simp add: except_block_def)

text \<open>
  C7. Once the gate has returned true, \<open>on_message\<close> calls \<open>set_typing\<close> with
  timeout 0 exactly once, as its last call, whatever the chat client and the
  provider did before: a dispatched answer, a provider error, an exception in the
  \<open>try\<close> suite (the POST raising among them), an exception in the handler.
\<close>

theorem typing_always_cleared:
  "should_respond self w evt \<Longrightarrow>
     fst (on_message self w evt) \<noteq> [] \<and>
     last (fst (on_message self w evt)) = SetTyping 0 \<and>
     count_list (fst (on_message self w evt)) (SetTyping 0) = 1"
proof -
  assume g: "should_respond self w evt"
  have h: "SetTyping 0 \<notin> set (fst (case snd (try_block self w evt) of
              Inl e \<Rightarrow> except_block w e | Inr u \<Rightarrow> ([], None)))"
    by (simp add: except_block_no_clear split: sum.splits)
  have "count_list (fst (on_message self w evt)) (SetTyping 0) = 1"
    using g try_block_no_clear [of self w evt] h
    by (simp add: on_message_def Let_def count_list_0_iff)
  then show ?thesis using g by (simp add: on_message_def Let_def)
qed

theorem typing_always_cleared_witness:
  "should_respond ex_bot ex_world (text_event ''@alice:example.org'' ''fxivity hello'') \<and>
   last (fst (on_message ex_bot ex_world
          (text_event ''@alice:example.org'' ''fxivity hello''))) = SetTyping 0 \<and>
   should_respond ex_bot failing_provider (text_event ''@alice:example.org'' ''fxivity hello'') \<and>
   last (fst (on_message ex_bot failing_provider
          (text_event ''@alice:example.org'' ''fxivity hello''))) = SetTyping 0 \<and>
   should_respond ex_bot unreachable_provider (text_event ''@alice:example.org'' ''fxivity hello'') \<and>
   last (fst (on_message ex_bot unreachable_provider
          (text_event ''@alice:example.org'' ''fxivity hello''))) = SetTyping 0 \<and>
   count_list (fst (on_message ex_bot unreachable_provider
          (text_event ''@alice:example.org'' ''fxivity hello''))) (SetTyping 0) = 1"
proof -
  let ?e = "text_event ''@alice:example.org'' ''fxivity hello''"
  have g1: "should_respond ex_bot ex_world ?e" by code_simp
  have g2: "should_respond ex_bot failing_provider ?e" by code_simp
  have g3: "should_respond ex_bot unreachable_provider ?e" by code_simp
  show ?thesis
    using g1 g2 g3 typing_always_cleared [OF g1] typing_always_cleared [OF g2]
      typing_always_cleared [OF g3]
    by simp
qed

lemma call_openrouter_error:
  "http_post w (build_request self q) = Response status txt js \<Longrightarrow> status \<noteq> 200 \<Longrightarrow>
     call_openrouter self w q =
       ([HttpPost (build_request self q),
         LogError (''OpenRouter API error: '' @ str_int status @ '' - '' @ txt)],
        Inr (JStr (''Error: API returned status '' @ str_int status)))"
  by (simp add: call_openrouter_def Let_def)

lemma try_block_error:
  assumes "mark_read w = None" and "set_typing w 30000 = None"
    and "http_post w (build_request self (extract_query (bot_name self) (body (content evt)))) =
           Response status txt js"
    and "status \<noteq> 200"
  shows "try_block self w evt =
     ([MarkRead, SetTyping 30000,
       HttpPost (build_request self (extract_query (bot_name self) (body (content evt)))),
       LogError (''OpenRouter API error: '' @ str_int status @ '' - '' @ txt),
       Respond (Content (answer_content w (''Error: API returned status '' @ str_int status)))],
      case respond w (Content (answer_content w (''Error: API returned status '' @ str_int status))) of
        Some e \<Rightarrow> Inl e
      | None \<Rightarrow> Inr ())"
  using assms by (simp add: try_block_def Let_def call_openrouter_error)



lemma call_openrouter_no_reply: "Respond r \<notin> set (fst (call_openrouter self w q))"
  by (simp add: call_openrouter_def Let_def split: http_result.splits sum.splits)

lemma try_block_replies:
  "Respond r \<in> set (fst (try_block self w evt)) \<Longrightarrow>
     \<exists>response. r = Content (answer_content w response)"
  by (auto simp: try_block_def Let_def call_openrouter_no_reply
           split: option.splits sum.splits json.splits)

lemma except_block_replies:
  "Respond r \<in> set (fst (except_block w e)) \<longleftrightarrow>
     r = Text (''Something went wrong: '' @ exc_str w e)"
  by (auto simp: except_block_def)

lemma answer_content_marker:
  "map_of (custom (answer_content w response)) marker = Some (JBool True)"
  by (simp add: answer_content_def)

lemma text_reply_unmarked: "\<not> dict_has (custom (sent_content w (Text s))) marker"
  by (simp add: sent_content_def dict_has_def)

lemma on_message_content_reply:
  "Respond (Content c) \<in> set (fst (on_message self w evt)) \<Longrightarrow>
     map_of (custom c) marker = Some (JBool True)"
  by (auto simp: on_message_def Let_def except_block_replies answer_content_marker
           split: if_splits sum.splits dest: try_block_replies)

lemma on_message_text_reply:
  "Respond (Text s) \<in> set (fst (on_message self w evt)) \<longleftrightarrow>
     should_respond self w evt \<and>
     (\<exists>e. snd (try_block self w evt) = Inl e \<and> s = ''Something went wrong: '' @ exc_str w e)"
  by (auto simp: on_message_def Let_def except_block_replies
           split: if_splits sum.splits dest: try_block_replies)

text \<open>
  C10. Every reply that \<open>on_message\<close> sends as a message content holds the
  marker key with the value true; the reply that carries a provider's error
  status is one of them. A reply sent as a plain string is sent exactly when the
  \<open>try\<close> suite raised, and is the "Something went wrong" text; the event it
  becomes holds no marker, so a later reply to it, from a sender who does not
  address the bot by name in a room of more than two, is gated false.
\<close>

theorem marker_on_answers_only:
  "(\<forall>c. Respond (Content c) \<in> set (fst (on_message self w evt)) \<longrightarrow>
        map_of (custom c) marker = Some (JBool True)) \<and>
   (should_respond self w evt \<and> mark_read w = None \<and> set_typing w 30000 = None \<and>
    http_post w (build_request self (extract_query (bot_name self) (body (content evt)))) =
      Response status txt js \<and> status \<noteq> 200 \<longrightarrow>
      Respond (Content (answer_content w (''Error: API returned status '' @ str_int status)))
        \<in> set (fst (on_message self w evt))) \<and>
   (\<forall>s. Respond (Text s) \<in> set (fst (on_message self w evt)) \<longleftrightarrow>
        should_respond self w evt \<and>
        (\<exists>e. snd (try_block self w evt) = Inl e \<and>
             s = ''Something went wrong: '' @ exc_str w e)) \<and>
   (\<forall>s. \<not> dict_has (custom (sent_content w (Text s))) marker) \<and>
   (\<forall>w' evt' pid s.
        \<not> direct_address self evt' \<and> \<not> is_dm w' evt' \<and>
        in_reply_to (content evt') = Some pid \<and>
        get_event w' (room_id evt') pid =
          Inr (Some \<lparr>sender = client_mxid self, room_id = room_id evt',
                     content = sent_content w (Text s)\<rparr>) \<longrightarrow>
        should_respond self w' evt' = False)"
proof -
  have err: "Respond (Content (answer_content w (''Error: API returned status '' @ str_int status)))
        \<in> set (fst (on_message self w evt))"
    if "should_respond self w evt" "mark_read w = None" "set_typing w 30000 = None"
      "http_post w (build_request self (extract_query (bot_name self) (body (content evt)))) =
         Response status txt js" "status \<noteq> 200"
    using that(1) by (simp add: on_message_def Let_def try_block_error [OF that(2-5)])
  have later: "should_respond self w' evt' = False"
    if "\<not> direct_address self evt'" "\<not> is_dm w' evt'" "in_reply_to (content evt') = Some pid"
      "get_event w' (room_id evt') pid =
          Inr (Some \<lparr>sender = client_mxid self, room_id = room_id evt',
                     content = sent_content w (Text s)\<rparr>)"
    for w' evt' pid s
    using that text_reply_unmarked [of w s]
    by (simp add: should_respond_def replies_to_bot_def)
  show ?thesis
    using on_message_content_reply [of _ self w evt] err on_message_text_reply [of _ self w evt]
      text_reply_unmarked [of w] later
    by blast
qed

theorem marker_on_answers_only_witness:
  "Respond (Content (answer_content failing_provider ''Error: API returned status 500''))
     \<in> set (fst (on_message ex_bot failing_provider
                   (text_event ''@alice:example.org'' ''fxivity what is 2+2?''))) \<and>
   map_of (custom (answer_content failing_provider ''Error: API returned status 500'')) marker =
     Some (JBool True) \<and>
   Respond (Text ''Something went wrong: timeout'')
     \<in> set (fst (on_message ex_bot unreachable_provider
                   (text_event ''@alice:example.org'' ''fxivity what is 2+2?''))) \<and>
   should_respond ex_bot apology_world
     (reply_event ''@alice:example.org'' ''why?'' ''$apology'') = False"
proof -
  let ?e = "text_event ''@alice:example.org'' ''fxivity what is 2+2?''"
  let ?r = "reply_event ''@alice:example.org'' ''why?'' ''$apology''"
  have g: "should_respond ex_bot failing_provider ?e" by code_simp
  have m: "mark_read failing_provider = None" by (simp add: failing_provider_def ex_world_def)
  have t: "set_typing failing_provider 30000 = None"
    by (simp add: failing_provider_def ex_world_def)
  have h: "http_post failing_provider
             (build_request ex_bot (extract_query (bot_name ex_bot) (body (content ?e)))) =
           Response 500 ''server error'' (Inl (External ''no JSON''))"
    by (simp add: failing_provider_def ex_world_def)
  have ne: "(500::int) \<noteq> 200" by simp
  have s: "str_int 500 = ''500''" by code_simp
  note f = marker_on_answers_only [of ex_bot failing_provider ?e 500 "''server error''"
      "Inl (External ''no JSON'')"]
  have a: "Respond (Content (answer_content failing_provider ''Error: API returned status 500''))
     \<in> set (fst (on_message ex_bot failing_provider ?e))"
    using f g m t h ne by (simp add: s)
  have b: "map_of (custom (answer_content failing_provider ''Error: API returned status 500'')) marker =
     Some (JBool True)"
    using f a by blast
  have gu: "should_respond ex_bot unreachable_provider ?e" by code_simp
  have tu: "snd (try_block ex_bot unreachable_provider ?e) = Inl (External ''timeout'')"
    by code_simp
  have xu: "exc_str unreachable_provider (External ''timeout'') = ''timeout''"
    by (simp add: unreachable_provider_def ex_world_def)
  note u = marker_on_answers_only [of ex_bot unreachable_provider ?e]
  have "Respond (Text (''Something went wrong: '' @ exc_str unreachable_provider (External ''timeout'')))
     \<in> set (fst (on_message ex_bot unreachable_provider ?e))"
    using u gu tu by blast
  then have c: "Respond (Text ''Something went wrong: timeout'')
     \<in> set (fst (on_message ex_bot unreachable_provider ?e))"
    by (simp add: xu)
  have d1: "\<not> direct_address ex_bot ?r" by code_simp
  have d2: "\<not> is_dm apology_world ?r" by code_simp
  have d3: "in_reply_to (content ?r) = Some ''$apology''" by (simp add: reply_event_def)
  have d4: "get_event apology_world (room_id ?r) ''$apology'' =
      Inr (Some \<lparr>sender = client_mxid ex_bot, room_id = room_id ?r,
                 content = sent_content unreachable_provider (Text ''Something went wrong: timeout'')\<rparr>)"
    by (simp add: apology_world_def reply_event_def ex_bot_def start_def)
  have d: "should_respond ex_bot apology_world ?r = False"
    using u d1 d2 d3 d4 by blast
  show ?thesis using a b c d by blast
qed

end
